theory Spec2Isabelle
  imports Complex_Main "HOL-Library.AList"
begin

section \<open>Values read from and written to the store\<close>

text \<open>
  Everything the two screens persist goes through \<^verbatim>\<open>JSON.stringify\<close> and comes back
  through \<^verbatim>\<open>JSON.parse\<close>, whose result has type \<^verbatim>\<open>any\<close>: the TypeScript types of
  \<^verbatim>\<open>HomeScreen.tsx\<close> are erased at run time. The values the screens hold are therefore
  modelled as JSON values, not as typed records.

  A string is a list of code units; \<^typ>\<open>char\<close> covers the code units below 256.
  \<open>JNum\<close> carries the value of a finite double: JSON text denotes no NaN, and a
  literal too large for a double is left out. An object
  is the list of its own properties in insertion order. The engine lists keys that
  are array indices first; that rule only changes the order of keys in serialized
  text and is not modelled.
\<close>

datatype json =
    JNull
  | JBool bool
  | JNum rat
  | JStr string
  | JArr "json list"
  | JObj "(string \<times> json) list"

datatype js_error = SyntaxError | TypeError | StorageError

text \<open>
  The result of reading a property: \<open>Undefined\<close>, a JSON value, or \<open>Builtin\<close>, a
  function or prototype object that the receiver inherits.
\<close>

datatype jsval = Undefined | Builtin | Val json

text \<open>ToBoolean, as \<^verbatim>\<open>&&\<close>, \<^verbatim>\<open>!\<close> and \<^verbatim>\<open>if\<close> apply it.\<close>

fun truthy :: "json \<Rightarrow> bool" where
  "truthy JNull = False"
| "truthy (JBool b) = b"
| "truthy (JNum n) = (n \<noteq> 0)"
| "truthy (JStr s) = (s \<noteq> [])"
| "truthy (JArr xs) = True"
| "truthy (JObj kvs) = True"

fun toBoolean :: "jsval \<Rightarrow> bool" where
  "toBoolean Undefined = False"
| "toBoolean Builtin = True"
| "toBoolean (Val v) = truthy v"

subsection \<open>Number to string\<close>

text \<open>The decimal digit of a number below ten; \<open>showNat\<close> asks for no other.\<close>

definition digit :: "nat \<Rightarrow> char" where
  "digit d = ''0123456789'' ! d"

fun showNat :: "nat \<Rightarrow> string" where
  "showNat n = (if n < 10 then [digit n] else showNat (n div 10) @ [digit (n mod 10)])"

declare showNat.simps [simp del]

text \<open>\<^verbatim>\<open>Number.prototype.toString\<close> on an integer below \<open>10^21\<close> in magnitude.\<close>

definition toString :: "int \<Rightarrow> string" where
  "toString i = (if i < 0 then CHR ''-'' # showNat (nat (- i)) else showNat (nat i))"

subsection \<open>Property access\<close>

text \<open>
  The names every object inherits from \<^verbatim>\<open>Object.prototype\<close>. Each of them reads as a
  function (or, for \<^verbatim>\<open>__proto__\<close>, as the prototype object): a truthy value.
\<close>

definition objectPrototypeKeys :: "string list" where
  "objectPrototypeKeys =
     [''constructor'', ''hasOwnProperty'', ''isPrototypeOf'', ''propertyIsEnumerable'',
      ''toLocaleString'', ''toString'', ''valueOf'', ''__proto__'',
      ''__defineGetter__'', ''__defineSetter__'', ''__lookupGetter__'', ''__lookupSetter__'']"

text \<open>Own properties that object spread copies (the enumerable ones).\<close>

fun ownProps :: "json \<Rightarrow> (string \<times> json) list" where
  "ownProps (JObj kvs) = kvs"
| "ownProps (JArr xs) = zip (map showNat [0..<length xs]) xs"
| "ownProps (JStr s) = zip (map showNat [0..<length s]) (map (\<lambda>c. JStr [c]) s)"
| "ownProps v = []"

text \<open>
  \<^verbatim>\<open>v[n]\<close>. Reading a property of \<^verbatim>\<open>null\<close> throws. Otherwise an own property wins,
  then the prototype chain is searched. Every chain ends in \<^verbatim>\<open>Object.prototype\<close>;
  the further names that only \<^verbatim>\<open>Array.prototype\<close>, \<^verbatim>\<open>String.prototype\<close>,
  \<^verbatim>\<open>Number.prototype\<close> and \<^verbatim>\<open>Boolean.prototype\<close> define are engine dependent and
  are read as undefined here; they matter only for a receiver that is not an object.
\<close>

definition ownProp :: "json \<Rightarrow> string \<Rightarrow> json option" where
  "ownProp v n =
     (case v of
        JArr xs \<Rightarrow> if n = ''length'' then Some (JNum (of_nat (length xs)))
                   else map_of (ownProps v) n
      | JStr s \<Rightarrow> if n = ''length'' then Some (JNum (of_nat (length s)))
                  else map_of (ownProps v) n
      | _ \<Rightarrow> map_of (ownProps v) n)"

definition getProp :: "json \<Rightarrow> string \<Rightarrow> js_error + jsval" where
  "getProp v n =
     (if v = JNull then Inl TypeError
      else case ownProp v n of
             Some x \<Rightarrow> Inr (Val x)
           | None \<Rightarrow> Inr (if n \<in> set objectPrototypeKeys then Builtin else Undefined))"

text \<open>
  \<^verbatim>\<open>{ ...o, [n]: v }\<close> on the copied properties: an existing key keeps its place and
  takes the new value, a new key goes last.
\<close>

definition setProp :: "(string \<times> json) list \<Rightarrow> string \<Rightarrow> json \<Rightarrow> (string \<times> json) list" where
  "setProp kvs n v = AList.update n v kvs"

text \<open>\<^verbatim>\<open>[...v]\<close>: arrays and strings are iterable, nothing else in JSON is.\<close>

fun spreadArray :: "json \<Rightarrow> js_error + json list" where
  "spreadArray (JArr xs) = Inr xs"
| "spreadArray (JStr s) = Inr (map (\<lambda>c. JStr [c]) s)"
| "spreadArray v = Inl TypeError"

subsection \<open>\<^verbatim>\<open>String.prototype.trim\<close>\<close>

definition isWhiteSpace :: "char \<Rightarrow> bool" where
  "isWhiteSpace c =
     (c \<in> set [CHR 0x09, CHR 0x0A, CHR 0x0B, CHR 0x0C, CHR 0x0D, CHR 0x20, CHR 0xA0])"

definition trim :: "string \<Rightarrow> string" where
  "trim s = rev (dropWhile isWhiteSpace (rev (dropWhile isWhiteSpace s)))"

section \<open>Platform collaborators\<close>

text \<open>
  \<^verbatim>\<open>JSON.parse\<close> and \<^verbatim>\<open>JSON.stringify\<close> belong to the engine, not to this
  repository, and are parameters: \<open>parse t = None\<close> is the SyntaxError.
\<close>

record codec =
  parse :: "string \<Rightarrow> json option"
  stringify :: "json \<Rightarrow> string"

text \<open>
  AsyncStorage (\<^verbatim>\<open>src/types/async-storage.d.ts\<close>): \<^verbatim>\<open>getItem\<close> resolves to the text
  or to \<^verbatim>\<open>null\<close>, \<^verbatim>\<open>setItem\<close> resolves to nothing, and either promise may reject.
  Whether reads and writes reject is part of the store's state; a rejected write
  changes nothing.
\<close>

record store =
  items :: "string \<Rightarrow> string option"
  readable :: bool
  writable :: bool

definition getItem :: "store \<Rightarrow> string \<Rightarrow> js_error + string option" where
  "getItem s k = (if readable s then Inr (items s k) else Inl StorageError)"

definition setItem :: "store \<Rightarrow> string \<Rightarrow> string \<Rightarrow> js_error + store" where
  "setItem s k t =
     (if writable s then Inr (s\<lparr>items := (items s)(k \<mapsto> t)\<rparr>) else Inl StorageError)"

text \<open>The clock behind \<^verbatim>\<open>Date.now()\<close> and \<^verbatim>\<open>new Date().toISOString()\<close>, and whether
  the notification calls resolve.\<close>

record env =
  nowMs :: int
  nowIso :: string
  notifyOk :: bool

section \<open>Screen state\<close>

text \<open>What a screen shows the user (\<^verbatim>\<open>Alert.alert\<close>: title and message) and what it
  only logs (\<^verbatim>\<open>console.error\<close>: the message).\<close>

record ui =
  alerts :: "(string \<times> string) list"
  console :: "string list"

record home = ui +
  entries :: "json list"
  loading :: bool
  likedPosts :: json
  savedPosts :: json
  commentedPosts :: json
  sharedPosts :: json

text \<open>The state \<^verbatim>\<open>HomeScreen\<close> mounts with.\<close>

definition initialHome :: home where
  "initialHome =
     \<lparr>alerts = [], console = [], entries = [], loading = True,
      likedPosts = JObj [], savedPosts = JObj [], commentedPosts = JObj [],
      sharedPosts = JObj []\<rparr>"

record addEntry = ui +
  image :: "string option"
  location :: json
  address :: string
  title :: string
  description :: string
  isLoading :: bool
  notifications :: "string list"
  navigated :: "string list"

section \<open>\<^verbatim>\<open>HomeScreen\<close>\<close>

subsection \<open>\<^verbatim>\<open>loadEntries\<close>\<close>

text \<open>The filter callback
  \<^verbatim>\<open>entry.id && entry.title && entry.description && entry.image\<close>.\<close>

definition isValidEntry :: "json \<Rightarrow> js_error + bool" where
  "isValidEntry entry =
     (case getProp entry ''id'' of Inl e \<Rightarrow> Inl e | Inr i \<Rightarrow>
        if \<not> toBoolean i then Inr False else
     (case getProp entry ''title'' of Inl e \<Rightarrow> Inl e | Inr t \<Rightarrow>
        if \<not> toBoolean t then Inr False else
     (case getProp entry ''description'' of Inl e \<Rightarrow> Inl e | Inr d \<Rightarrow>
        if \<not> toBoolean d then Inr False else
     (case getProp entry ''image'' of Inl e \<Rightarrow> Inl e | Inr g \<Rightarrow>
        Inr (toBoolean g)))))"

text \<open>\<^verbatim>\<open>Array.prototype.filter\<close> with a callback that may throw.\<close>

fun filterE :: "('a \<Rightarrow> js_error + bool) \<Rightarrow> 'a list \<Rightarrow> js_error + 'a list" where
  "filterE p [] = Inr []"
| "filterE p (x # xs) =
     (case p x of
        Inl e \<Rightarrow> Inl e
      | Inr b \<Rightarrow> (case filterE p xs of
                    Inl e \<Rightarrow> Inl e
                  | Inr ys \<Rightarrow> Inr (if b then x # ys else ys)))"

text \<open>\<^verbatim>\<open>parsedEntries.filter(...)\<close>: only an array has a callable \<^verbatim>\<open>filter\<close>.\<close>

definition validEntries :: "json \<Rightarrow> js_error + json list" where
  "validEntries parsedEntries =
     (case parsedEntries of
        JArr xs \<Rightarrow> filterE isValidEntry xs
      | _ \<Rightarrow> Inl TypeError)"

definition loadEntries :: "codec \<Rightarrow> home \<Rightarrow> store \<Rightarrow> home \<times> store" where
  "loadEntries J h s =
     (case getItem s ''travelEntries'' of
        Inl e \<Rightarrow>
          (h\<lparr>console := console h @ [''Error loading entries:''],
             alerts := alerts h @ [(''Error'', ''Failed to load entries'')],
             loading := False\<rparr>, s)
      | Inr entriesStr \<Rightarrow>
          (case entriesStr of
             None \<Rightarrow> (h\<lparr>entries := [], loading := False\<rparr>, s)
           | Some t \<Rightarrow>
               if t = [] then (h\<lparr>entries := [], loading := False\<rparr>, s)
               else
                 (case parse J t of
                    None \<Rightarrow>
                      (h\<lparr>console := console h @ [''Error parsing entries:''],
                         entries := [], loading := False\<rparr>, s)
                  | Some parsedEntries \<Rightarrow>
                      (case validEntries parsedEntries of
                         Inl e \<Rightarrow>
                           (h\<lparr>console := console h @ [''Error parsing entries:''],
                              entries := [], loading := False\<rparr>, s)
                       | Inr valid \<Rightarrow> (h\<lparr>entries := valid, loading := False\<rparr>, s)))))"

subsection \<open>\<^verbatim>\<open>loadActionStates\<close>\<close>

text \<open>\<^verbatim>\<open>if (text) set(JSON.parse(text))\<close>: nothing to set for \<^verbatim>\<open>null\<close> and for the
  empty text, a SyntaxError for text that does not parse.\<close>

definition parseIfSet :: "codec \<Rightarrow> string option \<Rightarrow> js_error + json option" where
  "parseIfSet J text =
     (case text of
        None \<Rightarrow> Inr None
      | Some t \<Rightarrow>
          if t = [] then Inr None
          else (case parse J t of None \<Rightarrow> Inl SyntaxError | Some v \<Rightarrow> Inr (Some v)))"

text \<open>
  The four reads are awaited together; then the four texts are parsed and set one
  after the other inside the same \<^verbatim>\<open>try\<close>, so an exception leaves the setters
  that come after it uncalled.
\<close>

definition loadActionStates :: "codec \<Rightarrow> home \<Rightarrow> store \<Rightarrow> home \<times> store" where
  "loadActionStates J h s =
     (let failed = (\<lambda>h'. (h'\<lparr>console := console h' @ [''Error loading action states:'']\<rparr>, s))
      in
      (case getItem s ''likedPosts'' of Inl e \<Rightarrow> failed h | Inr liked \<Rightarrow>
      (case getItem s ''commentedPosts'' of Inl e \<Rightarrow> failed h | Inr commented \<Rightarrow>
      (case getItem s ''sharedPosts'' of Inl e \<Rightarrow> failed h | Inr shared \<Rightarrow>
      (case getItem s ''savedPosts'' of Inl e \<Rightarrow> failed h | Inr saved \<Rightarrow>
      (case parseIfSet J liked of Inl e \<Rightarrow> failed h | Inr l \<Rightarrow>
         let h1 = (case l of None \<Rightarrow> h | Some v \<Rightarrow> h\<lparr>likedPosts := v\<rparr>) in
      (case parseIfSet J commented of Inl e \<Rightarrow> failed h1 | Inr c \<Rightarrow>
         let h2 = (case c of None \<Rightarrow> h1 | Some v \<Rightarrow> h1\<lparr>commentedPosts := v\<rparr>) in
      (case parseIfSet J shared of Inl e \<Rightarrow> failed h2 | Inr sh \<Rightarrow>
         let h3 = (case sh of None \<Rightarrow> h2 | Some v \<Rightarrow> h2\<lparr>sharedPosts := v\<rparr>) in
      (case parseIfSet J saved of Inl e \<Rightarrow> failed h3 | Inr sv \<Rightarrow>
         let h4 = (case sv of None \<Rightarrow> h3 | Some v \<Rightarrow> h3\<lparr>savedPosts := v\<rparr>) in
         (h4, s))))))))))"

subsection \<open>\<^verbatim>\<open>removeEntry\<close>\<close>

text \<open>The button pressed in the confirmation dialog.\<close>

datatype choice = Cancel | Delete

text \<open>The filter callback \<^verbatim>\<open>entry.id !== id\<close>, with \<open>eid\<close> (the source's \<^verbatim>\<open>id\<close>) a string.\<close>

definition idDiffers :: "string \<Rightarrow> json \<Rightarrow> js_error + bool" where
  "idDiffers eid entry =
     (case getProp entry ''id'' of Inl e \<Rightarrow> Inl e | Inr v \<Rightarrow> Inr (v \<noteq> Val (JStr eid)))"

definition removeEntry :: "codec \<Rightarrow> choice \<Rightarrow> string \<Rightarrow> home \<Rightarrow> store \<Rightarrow> home \<times> store" where
  "removeEntry J pressed eid h s =
     (let asked = h\<lparr>alerts := alerts h @
                     [(''Delete Entry'', ''Are you sure you want to delete this entry?'')]\<rparr>;
          failed = (asked\<lparr>console := console asked @ [''Error removing entry:''],
                          alerts := alerts asked @ [(''Error'', ''Failed to remove entry'')]\<rparr>, s)
      in
      (case pressed of
         Cancel \<Rightarrow> (asked, s)
       | Delete \<Rightarrow>
           (case filterE (idDiffers eid) (entries h) of
              Inl e \<Rightarrow> failed
            | Inr updatedEntries \<Rightarrow>
                (case setItem s ''travelEntries'' (stringify J (JArr updatedEntries)) of
                   Inl e \<Rightarrow> failed
                 | Inr s' \<Rightarrow> (asked\<lparr>entries := updatedEntries\<rparr>, s')))))"

subsection \<open>\<^verbatim>\<open>toggleAction\<close>\<close>

datatype action = Like | Comment | Share | Save

fun storageKey :: "action \<Rightarrow> string" where
  "storageKey Like = ''likedPosts''"
| "storageKey Comment = ''commentedPosts''"
| "storageKey Share = ''sharedPosts''"
| "storageKey Save = ''savedPosts''"

text \<open>\<^verbatim>\<open>{ ...posts, [id]: !posts[id] }\<close>\<close>

definition toggled :: "json \<Rightarrow> string \<Rightarrow> js_error + json" where
  "toggled posts eid =
     (case getProp posts eid of
        Inl e \<Rightarrow> Inl e
      | Inr v \<Rightarrow> Inr (JObj (setProp (ownProps posts) eid (JBool (\<not> toBoolean v)))))"

fun postsOf :: "action \<Rightarrow> home \<Rightarrow> json" where
  "postsOf Like h = likedPosts h"
| "postsOf Comment h = commentedPosts h"
| "postsOf Share h = sharedPosts h"
| "postsOf Save h = savedPosts h"

fun setPosts :: "action \<Rightarrow> json \<Rightarrow> home \<Rightarrow> home" where
  "setPosts Like v h = h\<lparr>likedPosts := v\<rparr>"
| "setPosts Comment v h = h\<lparr>commentedPosts := v\<rparr>"
| "setPosts Share v h = h\<lparr>sharedPosts := v\<rparr>"
| "setPosts Save v h = h\<lparr>savedPosts := v\<rparr>"

text \<open>
  Each branch of the \<^verbatim>\<open>switch\<close> builds the new mapping from the state of its own
  kind, sets that state and picks its key; the write follows the \<^verbatim>\<open>switch\<close>. The
  state is set before the write is awaited, so a rejected write leaves it set.
\<close>

definition toggleAction :: "codec \<Rightarrow> string \<Rightarrow> action \<Rightarrow> home \<Rightarrow> store \<Rightarrow> home \<times> store" where
  "toggleAction J eid type h s =
     (case toggled (postsOf type h) eid of
        Inl e \<Rightarrow> (h\<lparr>console := console h @ [''Error toggling action:'']\<rparr>, s)
      | Inr newState \<Rightarrow>
          (let h' = setPosts type newState h in
           (case setItem s (storageKey type) (stringify J newState) of
              Inl e \<Rightarrow> (h'\<lparr>console := console h' @ [''Error toggling action:'']\<rparr>, s)
            | Inr s' \<Rightarrow> (h', s'))))"

text \<open>The kinds whose texts \<^verbatim>\<open>loadActionStates\<close> parses before the text of a kind.\<close>

fun parsedBefore :: "action \<Rightarrow> action list" where
  "parsedBefore Like = []"
| "parsedBefore Comment = [Like]"
| "parsedBefore Share = [Like, Comment]"
| "parsedBefore Save = [Like, Comment, Share]"

section \<open>\<^verbatim>\<open>AddEntryScreen\<close>\<close>

text \<open>The state the screen mounts with, and returns to when it loses focus.\<close>

definition initialAddEntry :: addEntry where
  "initialAddEntry =
     \<lparr>alerts = [], console = [], image = None, location = JNull, address = [],
      title = [], description = [], isLoading = False, notifications = [],
      navigated = []\<rparr>"

text \<open>The object literal \<^verbatim>\<open>newEntry\<close>; \<open>img\<close> is the image, known not to be \<^verbatim>\<open>null\<close>.\<close>

definition newEntry :: "env \<Rightarrow> addEntry \<Rightarrow> string \<Rightarrow> json" where
  "newEntry E a img =
     JObj [(''id'', JStr (toString (nowMs E))),
           (''title'', JStr (trim (title a))),
           (''description'', JStr (trim (description a))),
           (''image'', JStr img),
           (''location'', location a),
           (''address'', JStr (address a)),
           (''date'', JStr (nowIso E))]"

text \<open>\<^verbatim>\<open>existingEntriesStr ? JSON.parse(existingEntriesStr) : []\<close>\<close>

definition existingEntries :: "codec \<Rightarrow> string option \<Rightarrow> js_error + json" where
  "existingEntries J existingEntriesStr =
     (case existingEntriesStr of
        None \<Rightarrow> Inr (JArr [])
      | Some t \<Rightarrow>
          if t = [] then Inr (JArr [])
          else (case parse J t of None \<Rightarrow> Inl SyntaxError | Some v \<Rightarrow> Inr v))"

text \<open>
  The notification is recorded by its body only (its title is a fixed text). Both
  notification calls sit in the same \<^verbatim>\<open>try\<close> after the write, so a rejection there
  reports a failed save although the entry is stored.
\<close>

definition saveEntry :: "env \<Rightarrow> codec \<Rightarrow> addEntry \<Rightarrow> store \<Rightarrow> addEntry \<times> store" where
  "saveEntry E J a s =
     (case image a of
        None \<Rightarrow>
          (a\<lparr>alerts := alerts a @
               [(''Missing Information'', ''Please fill in all fields and take a picture'')]\<rparr>, s)
      | Some img \<Rightarrow>
          if img = [] \<or> trim (title a) = [] \<or> trim (description a) = [] then
            (a\<lparr>alerts := alerts a @
                 [(''Missing Information'', ''Please fill in all fields and take a picture'')]\<rparr>, s)
          else
            (let failed = (\<lambda>s'. (a\<lparr>alerts := alerts a @
                                       [(''Error'', ''Failed to save entry. Please try again.'')],
                                     console := console a @ [''Error saving entry:''],
                                     isLoading := False\<rparr>, s'))
             in
             (case getItem s ''travelEntries'' of Inl e \<Rightarrow> failed s | Inr existingEntriesStr \<Rightarrow>
             (case existingEntries J existingEntriesStr of Inl e \<Rightarrow> failed s | Inr existing \<Rightarrow>
             (case spreadArray existing of Inl e \<Rightarrow> failed s | Inr xs \<Rightarrow>
             (case setItem s ''travelEntries'' (stringify J (JArr (xs @ [newEntry E a img]))) of
                Inl e \<Rightarrow> failed s
              | Inr s' \<Rightarrow>
                  if notifyOk E then
                    (a\<lparr>isLoading := False,
                       notifications := notifications a @
                         [''Your entry '' @ [CHR 0x22] @ title a @ [CHR 0x22] @
                          '' has been saved successfully!''],
                       navigated := navigated a @ [''Home'']\<rparr>, s')
                  else failed s'))))))"

section \<open>Predicates of the specification\<close>

text \<open>
  A record has a non-empty field when it is an object that has the field and the
  field is neither \<^verbatim>\<open>null\<close> nor the empty string. A record is structurally valid
  when its \<^verbatim>\<open>id\<close>, \<^verbatim>\<open>title\<close>, \<^verbatim>\<open>description\<close> and \<^verbatim>\<open>image\<close> are non-empty. A typed
  record is an object whose four fields, where present, are strings, as the type
  \<^verbatim>\<open>TravelEntry\<close> declares them.
\<close>

definition nonEmptyField :: "json \<Rightarrow> string \<Rightarrow> bool" where
  "nonEmptyField r n =
     (case r of
        JObj kvs \<Rightarrow> (case map_of kvs n of Some v \<Rightarrow> v \<noteq> JNull \<and> v \<noteq> JStr [] | None \<Rightarrow> False)
      | _ \<Rightarrow> False)"

definition structurallyValid :: "json \<Rightarrow> bool" where
  "structurallyValid r =
     (nonEmptyField r ''id'' \<and> nonEmptyField r ''title'' \<and>
      nonEmptyField r ''description'' \<and> nonEmptyField r ''image'')"

definition stringOrMissing :: "json \<Rightarrow> string \<Rightarrow> bool" where
  "stringOrMissing r n =
     (case r of
        JObj kvs \<Rightarrow> (case map_of kvs n of Some (JStr x) \<Rightarrow> True | Some _ \<Rightarrow> False | None \<Rightarrow> True)
      | _ \<Rightarrow> False)"

definition typedRecord :: "json \<Rightarrow> bool" where
  "typedRecord r =
     (stringOrMissing r ''id'' \<and> stringOrMissing r ''title'' \<and>
      stringOrMissing r ''description'' \<and> stringOrMissing r ''image'')"

text \<open>What the filter callback tests: the field is there and truthy.\<close>

definition truthyField :: "json \<Rightarrow> string \<Rightarrow> bool" where
  "truthyField r n =
     (case r of
        JObj kvs \<Rightarrow> (case map_of kvs n of Some v \<Rightarrow> truthy v | None \<Rightarrow> False)
      | _ \<Rightarrow> False)"

definition requiredFields :: "string list" where
  "requiredFields = [''id'', ''title'', ''description'', ''image'']"


text \<open>
  The boolean an overlay holds for an id, as the specification reads it: the truth
  value of the own property, and false when the mapping has no such key.
\<close>

definition flagAt :: "json \<Rightarrow> string \<Rightarrow> bool" where
  "flagAt posts eid = (case ownProp posts eid of Some v \<Rightarrow> truthy v | None \<Rightarrow> False)"

section \<open>Sample data\<close>

text \<open>
  Concrete inputs, used where a statement is evaluated: a clock, a filled form, the
  entry that \<^verbatim>\<open>saveEntry\<close> builds from them, two stored records that the load
  filter rejects, and a second valid record.
\<close>

definition sampleEnv :: env where
  "sampleEnv = \<lparr>nowMs = 1700000000000, nowIso = ''2023-11-14T22:13:20.000Z'', notifyOk = True\<rparr>"

definition sampleForm :: addEntry where
  "sampleForm =
     \<lparr>alerts = [], console = [], image = Some ''file://a.jpg'', location = JNull,
      address = [], title = '' Beach '', description = ''Nice'', isLoading = False,
      notifications = [], navigated = []\<rparr>"

definition beach :: json where
  "beach =
     JObj [(''id'', JStr ''1700000000000''), (''title'', JStr ''Beach''),
           (''description'', JStr ''Nice''), (''image'', JStr ''file://a.jpg''),
           (''location'', JNull), (''address'', JStr []),
           (''date'', JStr ''2023-11-14T22:13:20.000Z'')]"

definition untitled :: json where
  "untitled =
     JObj [(''id'', JStr ''2''), (''title'', JStr []), (''description'', JStr ''d''),
           (''image'', JStr ''i'')]"

definition imageless :: json where
  "imageless = JObj [(''id'', JStr ''3''), (''title'', JStr ''t''), (''description'', JStr ''d'')]"

definition harbour :: json where
  "harbour =
     JObj [(''id'', JStr ''4''), (''title'', JStr ''Harbour''), (''description'', JStr ''Boats''),
           (''image'', JStr ''file://b.jpg'')]"

text \<open>The JSON texts of these values.\<close>

definition beachText :: string where
  \<open>beachText = ''{"id":"1700000000000","title":"Beach","description":"Nice","image":"file://a.jpg","location":null,"address":"","date":"2023-11-14T22:13:20.000Z"}''\<close>

definition untitledText :: string where
  \<open>untitledText = ''{"id":"2","title":"","description":"d","image":"i"}''\<close>

definition imagelessText :: string where
  \<open>imagelessText = ''{"id":"3","title":"t","description":"d"}''\<close>

definition harbourText :: string where
  \<open>harbourText = ''{"id":"4","title":"Harbour","description":"Boats","image":"file://b.jpg"}''\<close>

definition beachListText :: string where
  "beachListText = ''['' @ beachText @ '']''"

definition beachTwiceText :: string where
  "beachTwiceText = ''['' @ beachText @ '','' @ beachText @ '']''"

definition nullBeachText :: string where
  "nullBeachText = ''[null,'' @ beachText @ '']''"

definition mixedListText :: string where
  "mixedListText =
     ''['' @ beachText @ '','' @ untitledText @ '','' @ imagelessText @ '','' @ harbourText @ '']''"

definition harbourListText :: string where
  "harbourListText = ''['' @ harbourText @ '']''"

text \<open>
  A codec that agrees with \<^verbatim>\<open>JSON.parse\<close> and \<^verbatim>\<open>JSON.stringify\<close> on the texts and
  values of this table, and rejects every other text (among them the empty text and
  \<^verbatim>\<open>{\<close>, which are no JSON texts).
\<close>

definition sampleTable :: "(string \<times> json) list" where
  \<open>sampleTable =
     [(''[]'', JArr []),
      (''[null]'', JArr [JNull]),
      (beachListText, JArr [beach]),
      (beachTwiceText, JArr [beach, beach]),
      (nullBeachText, JArr [JNull, beach]),
      (mixedListText, JArr [beach, untitled, imageless, harbour]),
      (harbourListText, JArr [harbour]),
      (''{}'', JObj []),
      (''{"1":true}'', JObj [(''1'', JBool True)]),
      (''{"1":false}'', JObj [(''1'', JBool False)]),
      (''{"toString":false}'', JObj [(''toString'', JBool False)]),
      (''{"toString":true}'', JObj [(''toString'', JBool True)])]\<close>

definition sampleStringify :: "json \<Rightarrow> string" where
  "sampleStringify v =
     (case find (\<lambda>p. snd p = v) sampleTable of Some p \<Rightarrow> fst p | None \<Rightarrow> ''null'')"

definition sampleCodec :: codec where
  "sampleCodec = \<lparr>parse = map_of sampleTable, stringify = sampleStringify\<rparr>"

text \<open>A store that holds the given items and whose reads and writes resolve.\<close>

definition storeOf :: "(string \<times> string) list \<Rightarrow> store" where
  "storeOf kvs = \<lparr>items = map_of kvs, readable = True, writable = True\<rparr>"


text \<open>The feed showing two entries.\<close>

definition sampleHome :: home where
  "sampleHome = initialHome\<lparr>entries := [beach, harbour]\<rparr>"

section \<open>Facts about the building blocks\<close>

lemmas sampleTexts =
  beachText_def untitledText_def imagelessText_def harbourText_def beachListText_def
  beachTwiceText_def nullBeachText_def mixedListText_def harbourListText_def

lemma filterE_Inr: "filterE p xs = Inr ys \<Longrightarrow> ys = filter (\<lambda>x. p x = Inr True) xs"
  by (induction xs arbitrary: ys) (auto split: sum.splits if_splits)

lemma filterE_total: "\<forall>x\<in>set xs. \<exists>b. p x = Inr b \<Longrightarrow> filterE p xs = Inr (filter (\<lambda>x. p x = Inr True) xs)"
  by (induction xs) (auto split: sum.splits if_splits)

lemma showNat_digits: "set (showNat n) \<subseteq> digit ` {0..<10}"
proof (induction n rule: showNat.induct)
  case (1 n)
  show ?case
  proof (cases "n < 10")
    case True
    then show ?thesis by (subst showNat.simps) auto
  next
    case False
    with 1 have "set (showNat (n div 10)) \<subseteq> digit ` {0..<10}" by simp
    moreover have "digit (n mod 10) \<in> digit ` {0..<10}" by simp
    ultimately show ?thesis using False by (subst showNat.simps) auto
  qed
qed

lemma digit_range: "d < 10 \<Longrightarrow> digit d \<in> set ''0123456789''"
  unfolding digit_def by (rule nth_mem) simp

lemma showNat_chars: "set (showNat n) \<subseteq> set ''0123456789''"
  using showNat_digits [of n] digit_range by fastforce

lemma showNat_nonempty: "showNat n \<noteq> []"
  by (subst showNat.simps) simp



lemma required_has_letter: "n \<in> set requiredFields \<Longrightarrow> CHR ''i'' \<in> set n"
  by (auto simp: requiredFields_def)

lemma required_not_numeral: "n \<in> set requiredFields \<Longrightarrow> n \<noteq> showNat k"
proof
  assume n: "n \<in> set requiredFields" and eq: "n = showNat k"
  have "CHR ''i'' \<notin> set ''0123456789''" by simp
  with required_has_letter [OF n] eq showNat_chars [of k] show False by blast
qed

lemma required_not_length: "n \<in> set requiredFields \<Longrightarrow> n \<noteq> ''length''"
  by (auto simp: requiredFields_def)

lemma required_not_inherited: "n \<in> set requiredFields \<Longrightarrow> n \<notin> set objectPrototypeKeys"
  by (auto simp: requiredFields_def objectPrototypeKeys_def)

lemma ownProp_required:
  assumes "n \<in> set requiredFields"
  shows "ownProp r n = (case r of JObj kvs \<Rightarrow> map_of kvs n | _ \<Rightarrow> None)"
  using required_not_length [OF assms] required_not_numeral [OF assms]
  by (cases r) (auto simp: ownProp_def)

lemma getProp_required:
  assumes "n \<in> set requiredFields"
  shows "getProp r n =
           (case r of
              JNull \<Rightarrow> Inl TypeError
            | JObj kvs \<Rightarrow> Inr (case map_of kvs n of Some x \<Rightarrow> Val x | None \<Rightarrow> Undefined)
            | _ \<Rightarrow> Inr Undefined)"
  using required_not_inherited [OF assms]
  by (cases r) (simp_all add: getProp_def ownProp_required [OF assms] split: option.splits)

lemma requiredI:
  "''id'' \<in> set requiredFields" "''title'' \<in> set requiredFields"
  "''description'' \<in> set requiredFields" "''image'' \<in> set requiredFields"
  by (simp_all add: requiredFields_def)

lemmas getProp_fields = requiredI [THEN getProp_required]

lemma truthy_nonEmpty: "truthy v \<Longrightarrow> v \<noteq> JNull \<and> v \<noteq> JStr []"
  by (cases v) simp_all

lemma isValidEntry_null: "isValidEntry JNull = Inl TypeError"
  by (simp add: isValidEntry_def getProp_def)

lemma toBoolean_getProp_required:
  assumes "n \<in> set requiredFields" "r \<noteq> JNull"
  shows "getProp r n = Inr (case r of JObj kvs \<Rightarrow> (case map_of kvs n of Some x \<Rightarrow> Val x | None \<Rightarrow> Undefined) | _ \<Rightarrow> Undefined)"
  using assms(2) by (cases r) (simp_all add: getProp_required [OF assms(1)])

lemma toBoolean_field:
  "toBoolean (case r of JObj kvs \<Rightarrow> (case map_of kvs n of Some x \<Rightarrow> Val x | None \<Rightarrow> Undefined) | _ \<Rightarrow> Undefined)
     = truthyField r n"
  by (cases r) (simp_all add: truthyField_def split: option.splits)

lemma isValidEntry_notnull:
  assumes "r \<noteq> JNull"
  shows "isValidEntry r =
           Inr (truthyField r ''id'' \<and> truthyField r ''title'' \<and>
                truthyField r ''description'' \<and> truthyField r ''image'')"
  unfolding isValidEntry_def
  by (simp add: requiredI [THEN toBoolean_getProp_required, OF assms] toBoolean_field)

lemma truthyField_nonEmpty: "truthyField r n \<Longrightarrow> nonEmptyField r n"
  by (cases r) (auto simp: truthyField_def nonEmptyField_def split: option.splits dest: truthy_nonEmpty)

lemma truthyField_typed: "stringOrMissing r n \<Longrightarrow> truthyField r n = nonEmptyField r n"
  by (cases r) (auto simp: truthyField_def nonEmptyField_def stringOrMissing_def split: option.splits json.splits)

lemma isValidEntry_True: "isValidEntry r = Inr True \<Longrightarrow> structurallyValid r"
proof -
  assume a: "isValidEntry r = Inr True"
  then have "r \<noteq> JNull" using isValidEntry_null by auto
  from a isValidEntry_notnull [OF this] show ?thesis
    by (simp add: structurallyValid_def truthyField_nonEmpty)
qed

lemma typedRecord_notnull: "typedRecord r \<Longrightarrow> r \<noteq> JNull"
  by (auto simp: typedRecord_def stringOrMissing_def)

lemma isValidEntry_typed: "typedRecord r \<Longrightarrow> isValidEntry r = Inr (structurallyValid r)"
  using isValidEntry_notnull [OF typedRecord_notnull]
  by (simp add: typedRecord_def structurallyValid_def truthyField_typed)

section \<open>Loading the collection\<close>

lemma sample_parse_empty: "parse sampleCodec [] = None"
  by (simp add: sampleCodec_def sampleTable_def sampleTexts)

lemma newEntry_sample: "newEntry sampleEnv sampleForm ''file://a.jpg'' = beach"
  by (simp add: newEntry_def sampleEnv_def sampleForm_def beach_def toString_def
      showNat.simps digit_def trim_def isWhiteSpace_def)

lemma loadEntries_parsed:
  assumes "readable s" and "items s ''travelEntries'' = Some t" and "parse J t = Some v"
    and "parse J [] = None"
  shows "loadEntries J h s =
           (case validEntries v of
              Inl e \<Rightarrow> (h\<lparr>console := console h @ [''Error parsing entries:''],
                           entries := [], loading := False\<rparr>, s)
            | Inr valid \<Rightarrow> (h\<lparr>entries := valid, loading := False\<rparr>, s))"
proof -
  from assms(3,4) have "t \<noteq> []" by auto
  with assms(1-3) show ?thesis by (simp add: loadEntries_def getItem_def)
qed

lemma validEntries_subset:
  "validEntries (JArr xs) = Inr ys \<Longrightarrow> set ys \<subseteq> {r \<in> set xs. structurallyValid r}"
  by (auto simp: validEntries_def dest!: filterE_Inr dest: isValidEntry_True)

lemma validEntries_typed:
  assumes "\<forall>r\<in>set xs. typedRecord r"
  shows "validEntries (JArr xs) = Inr (filter structurallyValid xs)"
proof -
  have "filterE isValidEntry xs = Inr (filter (\<lambda>x. isValidEntry x = Inr True) xs)"
    using assms by (intro filterE_total) (auto simp: isValidEntry_typed)
  moreover have "filter (\<lambda>x. isValidEntry x = Inr True) xs = filter structurallyValid xs"
    using assms by (intro filter_cong) (auto simp: isValidEntry_typed)
  ultimately show ?thesis by (simp add: validEntries_def)
qed

lemma typedRecord_samples:
  "typedRecord beach" "typedRecord untitled" "typedRecord imageless" "typedRecord harbour"
  by (simp_all add: typedRecord_def stringOrMissing_def beach_def untitled_def imageless_def
      harbour_def)

lemma structurallyValid_samples:
  "structurallyValid beach" "\<not> structurallyValid untitled" "\<not> structurallyValid imageless"
  "structurallyValid harbour"
  by (simp_all add: structurallyValid_def nonEmptyField_def beach_def untitled_def imageless_def
      harbour_def)

text \<open>
  C1. When the stored text parses as a list, the loaded entries are records of that
  list whose \<^verbatim>\<open>id\<close>, \<^verbatim>\<open>title\<close>, \<^verbatim>\<open>description\<close> and \<^verbatim>\<open>image\<close> are all non-empty; no
  structurally invalid record is among them; nothing is shown to the user. When the
  list holds typed records only, the loaded entries are exactly its structurally
  valid records, in their order. (The empty text is no JSON text.)
\<close>

theorem loadEntries_drops_invalid:
  assumes "readable s" and "items s ''travelEntries'' = Some t"
    and "parse J t = Some (JArr xs)" and "parse J [] = None"
  shows "set (entries (fst (loadEntries J h s))) \<subseteq> {r \<in> set xs. structurallyValid r}
       \<and> (\<forall>r. \<not> structurallyValid r \<longrightarrow> r \<notin> set (entries (fst (loadEntries J h s))))
       \<and> alerts (fst (loadEntries J h s)) = alerts h
       \<and> ((\<forall>r\<in>set xs. typedRecord r) \<longrightarrow>
            entries (fst (loadEntries J h s)) = filter structurallyValid xs)"
proof -
  note eq = loadEntries_parsed [OF assms, of h]
  have sub: "set (entries (fst (loadEntries J h s))) \<subseteq> {r \<in> set xs. structurallyValid r}"
  proof (cases "validEntries (JArr xs)")
    case (Inl e)
    then show ?thesis by (simp add: eq)
  next
    case (Inr ys)
    with validEntries_subset [OF Inr] show ?thesis by (simp add: eq)
  qed
  have quiet: "alerts (fst (loadEntries J h s)) = alerts h"
    by (cases "validEntries (JArr xs)") (simp_all add: eq)
  have exact: "entries (fst (loadEntries J h s)) = filter structurallyValid xs"
    if "\<forall>r\<in>set xs. typedRecord r"
    by (simp add: eq validEntries_typed [OF that])
  from sub quiet exact show ?thesis by blast
qed

theorem loadEntries_drops_invalid_witness:
  "entries (fst (loadEntries sampleCodec initialHome (storeOf [(''travelEntries'', mixedListText)])))
     = [beach, harbour]
   \<and> \<not> structurallyValid untitled \<and> \<not> structurallyValid imageless"
proof -
  let ?t = "mixedListText"
  let ?s = "storeOf [(''travelEntries'', ?t)]"
  have r: "readable ?s" by (simp add: storeOf_def)
  have i: "items ?s ''travelEntries'' = Some ?t" by (simp add: storeOf_def)
  have p: "parse sampleCodec ?t = Some (JArr [beach, untitled, imageless, harbour])"
    by (simp add: sampleCodec_def sampleTable_def sampleTexts)
  have ty: "\<forall>r\<in>set [beach, untitled, imageless, harbour]. typedRecord r"
    by (simp add: typedRecord_samples)
  from loadEntries_drops_invalid [OF r i p sample_parse_empty, of initialHome] ty
  show ?thesis by (simp add: structurallyValid_samples)
qed

text \<open>
  C2, as the code has it. When the collection key is absent, the loaded entries are
  empty and the store is left as it was: \<^verbatim>\<open>loadEntries\<close> never writes.
\<close>

theorem loadEntries_absent_key:
  assumes "readable s" and "items s ''travelEntries'' = None"
  shows "entries (fst (loadEntries J h s)) = [] \<and> snd (loadEntries J h s) = s
       \<and> alerts (fst (loadEntries J h s)) = alerts h"
  using assms by (simp add: loadEntries_def getItem_def)

theorem loadEntries_absent_key_witness:
  "entries (fst (loadEntries sampleCodec initialHome (storeOf []))) = []
   \<and> snd (loadEntries sampleCodec initialHome (storeOf [])) = storeOf []"
proof -
  have r: "readable (storeOf [])" by (simp add: storeOf_def)
  have i: "items (storeOf []) ''travelEntries'' = None" by (simp add: storeOf_def)
  from loadEntries_absent_key [OF r i, of sampleCodec initialHome] show ?thesis by simp
qed

text \<open>
  C2 as stated fails: on the empty store the key is still absent after the load, while
  the serialized empty list is the text \<^verbatim>\<open>[]\<close>.
\<close>

theorem absent_key_stays_absent:
  "readable (storeOf []) \<and> items (storeOf []) ''travelEntries'' = None
   \<and> items (snd (loadEntries sampleCodec initialHome (storeOf []))) ''travelEntries'' = None
   \<and> items (snd (loadEntries sampleCodec initialHome (storeOf []))) ''travelEntries''
       \<noteq> Some (stringify sampleCodec (JArr []))"
  by (simp add: loadEntries_def getItem_def storeOf_def sampleCodec_def sampleStringify_def
      sampleTable_def)

text \<open>
  C7. When the collection key holds text that does not deserialize, the loaded entries
  are empty, nothing is shown to the user and the store is left as it was; the failure
  is logged (for the empty text, which is not even handed to the parser, nothing is).
\<close>

theorem loadEntries_corrupt_text:
  assumes "readable s" and "items s ''travelEntries'' = Some t" and "parse J t = None"
  shows "entries (fst (loadEntries J h s)) = []
       \<and> alerts (fst (loadEntries J h s)) = alerts h
       \<and> console (fst (loadEntries J h s)) =
           console h @ (if t = [] then [] else [''Error parsing entries:''])
       \<and> snd (loadEntries J h s) = s"
  using assms by (simp add: loadEntries_def getItem_def)

theorem loadEntries_corrupt_text_witness:
  "entries (fst (loadEntries sampleCodec initialHome (storeOf [(''travelEntries'', ''{'')]))) = []
   \<and> alerts (fst (loadEntries sampleCodec initialHome (storeOf [(''travelEntries'', ''{'')]))) = []
   \<and> console (fst (loadEntries sampleCodec initialHome (storeOf [(''travelEntries'', ''{'')])))
       = [''Error parsing entries:'']"
proof -
  let ?s = "storeOf [(''travelEntries'', ''{'')]"
  have r: "readable ?s" by (simp add: storeOf_def)
  have i: "items ?s ''travelEntries'' = Some ''{''" by (simp add: storeOf_def)
  have p: "parse sampleCodec ''{'' = None"
    by (simp add: sampleCodec_def sampleTable_def sampleTexts)
  from loadEntries_corrupt_text [OF r i p, of initialHome] show ?thesis
    by (simp add: initialHome_def)
qed

section \<open>Saving an entry\<close>

lemma sample_parse:
  "parse sampleCodec beachListText = Some (JArr [beach])"
  "parse sampleCodec (beachTwiceText) = Some (JArr [beach, beach])"
  "parse sampleCodec ''[null]'' = Some (JArr [JNull])"
  "parse sampleCodec (nullBeachText) = Some (JArr [JNull, beach])"
  by (simp_all add: sampleCodec_def sampleTable_def sampleTexts)

lemma sample_stringify:
  "stringify sampleCodec (JArr [beach]) = beachListText"
  "stringify sampleCodec (JArr [beach, beach]) = beachTwiceText"
  "stringify sampleCodec (JArr [JNull, beach]) = nullBeachText"
  by (simp_all add: sampleCodec_def sampleStringify_def sampleTable_def beach_def)

lemma toString_nonempty: "toString i \<noteq> []"
  by (simp add: toString_def showNat_nonempty)

lemma isValidEntry_newEntry:
  assumes "img \<noteq> []" and "trim (title a) \<noteq> []" and "trim (description a) \<noteq> []"
  shows "isValidEntry (newEntry E a img) = Inr True"
proof -
  have "newEntry E a img \<noteq> JNull" by (simp add: newEntry_def)
  from isValidEntry_notnull [OF this] assms show ?thesis
    by (simp add: newEntry_def truthyField_def toString_nonempty)
qed

lemma filterE_notnull:
  assumes "JNull \<notin> set xs"
  shows "filterE isValidEntry xs = Inr (filter (\<lambda>x. isValidEntry x = Inr True) xs)"
proof (rule filterE_total, rule ballI)
  fix x assume "x \<in> set xs"
  with assms have "x \<noteq> JNull" by auto
  from isValidEntry_notnull [OF this] show "\<exists>b. isValidEntry x = Inr b" by blast
qed

lemma count_list_filter:
  "count_list (filter P xs) e = (if P e then count_list xs e else 0)"
  by (induction xs) auto

text \<open>What \<^verbatim>\<open>saveEntry\<close> does once the form has passed the check.\<close>

lemma saveEntry_checked:
  assumes "image a = Some img" and "img \<noteq> []" and "trim (title a) \<noteq> []"
    and "trim (description a) \<noteq> []"
  shows "saveEntry E J a s =
     (let failed = (\<lambda>s'. (a\<lparr>alerts := alerts a @
                               [(''Error'', ''Failed to save entry. Please try again.'')],
                             console := console a @ [''Error saving entry:''],
                             isLoading := False\<rparr>, s'))
      in
      (case getItem s ''travelEntries'' of Inl e \<Rightarrow> failed s | Inr existingEntriesStr \<Rightarrow>
      (case existingEntries J existingEntriesStr of Inl e \<Rightarrow> failed s | Inr existing \<Rightarrow>
      (case spreadArray existing of Inl e \<Rightarrow> failed s | Inr xs \<Rightarrow>
      (case setItem s ''travelEntries'' (stringify J (JArr (xs @ [newEntry E a img]))) of
         Inl e \<Rightarrow> failed s
       | Inr s' \<Rightarrow>
           if notifyOk E then
             (a\<lparr>isLoading := False,
                notifications := notifications a @
                  [''Your entry '' @ [CHR 0x22] @ title a @ [CHR 0x22] @
                   '' has been saved successfully!''],
                navigated := navigated a @ [''Home'']\<rparr>, s')
           else failed s')))))"
  using assms by (simp add: saveEntry_def)

lemma saveEntry_store:
  assumes "image a = Some img" and "img \<noteq> []" and "trim (title a) \<noteq> []"
    and "trim (description a) \<noteq> []"
    and "readable s" and "writable s" and "items s ''travelEntries'' = Some t"
    and "parse J t = Some (JArr xs)" and "parse J [] = None"
  shows "snd (saveEntry E J a s) =
           s\<lparr>items := (items s)(''travelEntries'' \<mapsto> stringify J (JArr (xs @ [newEntry E a img])))\<rparr>"
proof -
  from assms(8,9) have "t \<noteq> []" by auto
  with assms(5-8) show ?thesis
    by (simp add: saveEntry_checked [OF assms(1-4)] getItem_def setItem_def existingEntries_def)
qed

lemma sample_form_checked:
  "image sampleForm = Some ''file://a.jpg''" "''file://a.jpg'' \<noteq> []"
  "trim (title sampleForm) \<noteq> []" "trim (description sampleForm) \<noteq> []"
  by (simp_all add: sampleForm_def trim_def isWhiteSpace_def)

text \<open>
  C3, as the code has it. Let the form pass the check, let the stored collection parse
  as a list without a \<^verbatim>\<open>null\<close> element, and let the written text parse back to the
  written list. Then a load after the save yields what a load before it yielded,
  followed by the new entry, unchanged: the entry occurs once more than it did in
  the stored list, hence exactly once when it was not stored before.
\<close>

theorem saveEntry_then_loadEntries:
  assumes "image a = Some img" and "img \<noteq> []" and "trim (title a) \<noteq> []"
    and "trim (description a) \<noteq> []"
    and "readable s" and "writable s" and "items s ''travelEntries'' = Some t"
    and "parse J t = Some (JArr xs)" and "parse J [] = None"
    and "JNull \<notin> set xs"
    and "parse J (stringify J (JArr (xs @ [newEntry E a img]))) = Some (JArr (xs @ [newEntry E a img]))"
  shows "entries (fst (loadEntries J h (snd (saveEntry E J a s))))
           = entries (fst (loadEntries J h s)) @ [newEntry E a img]
       \<and> count_list (entries (fst (loadEntries J h (snd (saveEntry E J a s))))) (newEntry E a img)
           = Suc (count_list xs (newEntry E a img))"
proof -
  let ?e = "newEntry E a img"
  let ?ok = "\<lambda>x. isValidEntry x = Inr True"
  let ?s' = "snd (saveEntry E J a s)"
  have e: "?ok ?e" by (rule isValidEntry_newEntry [OF assms(2-4)])
  have before: "entries (fst (loadEntries J h s)) = filter ?ok xs"
    by (simp add: loadEntries_parsed [OF assms(5,7,8,9)] validEntries_def
        filterE_notnull [OF assms(10)])
  have s': "?s' = s\<lparr>items := (items s)(''travelEntries'' \<mapsto> stringify J (JArr (xs @ [?e])))\<rparr>"
    by (rule saveEntry_store [OF assms(1-9)])
  have r: "readable ?s'" using assms(5) by (simp add: s')
  have i: "items ?s' ''travelEntries'' = Some (stringify J (JArr (xs @ [?e])))"
    by (simp add: s')
  have nn: "JNull \<notin> set (xs @ [?e])" using assms(10) by (simp add: newEntry_def)
  have after: "entries (fst (loadEntries J h ?s')) = filter ?ok xs @ [?e]"
    using e by (simp add: loadEntries_parsed [OF r i assms(11) assms(9)] validEntries_def
        filterE_notnull [OF nn])
  have "count_list (filter ?ok xs @ [?e]) ?e = Suc (count_list xs ?e)"
    using e by (simp add: count_list_filter)
  with before after show ?thesis by simp
qed

theorem saveEntry_then_loadEntries_witness:
  "entries (fst (loadEntries sampleCodec initialHome
      (snd (saveEntry sampleEnv sampleCodec sampleForm (storeOf [(''travelEntries'', ''[]'')])))))
     = [beach]"
proof -
  let ?s = "storeOf [(''travelEntries'', ''[]'')]"
  have r: "readable ?s" and w: "writable ?s" and i: "items ?s ''travelEntries'' = Some ''[]''"
    by (simp_all add: storeOf_def)
  have p: "parse sampleCodec ''[]'' = Some (JArr [])"
    by (simp add: sampleCodec_def sampleTable_def sampleTexts)
  have n: "JNull \<notin> set []" by simp
  have rt: "parse sampleCodec
              (stringify sampleCodec (JArr ([] @ [newEntry sampleEnv sampleForm ''file://a.jpg''])))
            = Some (JArr ([] @ [newEntry sampleEnv sampleForm ''file://a.jpg'']))"
    by (simp add: newEntry_sample sample_stringify sample_parse)
  have before: "entries (fst (loadEntries sampleCodec initialHome ?s)) = []"
    by (simp add: loadEntries_parsed [OF r i p sample_parse_empty] validEntries_def)
  from saveEntry_then_loadEntries [OF sample_form_checked r w i p sample_parse_empty n rt,
      of initialHome] before
  show ?thesis by (simp add: newEntry_sample)
qed

lemma sample_store:
  "readable (storeOf kvs)" "writable (storeOf kvs)" "items (storeOf kvs) = map_of kvs"
  by (simp_all add: storeOf_def)

lemma isValidEntry_beach: "isValidEntry beach = Inr True"
  using isValidEntry_typed [OF typedRecord_samples(1)] structurallyValid_samples(1) by simp

text \<open>
  C3 as stated fails on two stores whose collection parses as a list. Where the stored
  list already holds the entry, the load after the save returns it twice. Where the
  stored list holds \<^verbatim>\<open>null\<close>, the filter of the load throws on that element and the
  load returns nothing, the new entry included.
\<close>

theorem roundtrip_not_exactly_once:
  "newEntry sampleEnv sampleForm ''file://a.jpg'' = beach
   \<and> parse sampleCodec beachListText = Some (JArr [beach])
   \<and> entries (fst (loadEntries sampleCodec initialHome
        (snd (saveEntry sampleEnv sampleCodec sampleForm
           (storeOf [(''travelEntries'', beachListText)])))))
       = [beach, beach]
   \<and> parse sampleCodec ''[null]'' = Some (JArr [JNull])
   \<and> entries (fst (loadEntries sampleCodec initialHome
        (snd (saveEntry sampleEnv sampleCodec sampleForm
           (storeOf [(''travelEntries'', ''[null]'')])))))
       = []"
proof -
  let ?s1 = "storeOf [(''travelEntries'', beachListText)]"
  let ?s2 = "storeOf [(''travelEntries'', ''[null]'')]"
  let ?t1 = "beachTwiceText"
  let ?t2 = "nullBeachText"
  have s1: "snd (saveEntry sampleEnv sampleCodec sampleForm ?s1)
              = ?s1\<lparr>items := (items ?s1)(''travelEntries'' \<mapsto> ?t1)\<rparr>"
    using saveEntry_store [OF sample_form_checked sample_store(1,2) _ sample_parse(1)
        sample_parse_empty, of "[(''travelEntries'', beachListText)]" sampleEnv]
    by (simp add: sample_store newEntry_sample sample_stringify)
  have s2: "snd (saveEntry sampleEnv sampleCodec sampleForm ?s2)
              = ?s2\<lparr>items := (items ?s2)(''travelEntries'' \<mapsto> ?t2)\<rparr>"
    using saveEntry_store [OF sample_form_checked sample_store(1,2) _ sample_parse(3)
        sample_parse_empty, of "[(''travelEntries'', ''[null]'')]" sampleEnv]
    by (simp add: sample_store newEntry_sample sample_stringify)
  have l1: "entries (fst (loadEntries sampleCodec initialHome
              (?s1\<lparr>items := (items ?s1)(''travelEntries'' \<mapsto> ?t1)\<rparr>))) = [beach, beach]"
    by (subst loadEntries_parsed [OF _ _ sample_parse(2) sample_parse_empty])
       (simp_all add: sample_store validEntries_def isValidEntry_beach)
  have l2: "entries (fst (loadEntries sampleCodec initialHome
              (?s2\<lparr>items := (items ?s2)(''travelEntries'' \<mapsto> ?t2)\<rparr>))) = []"
    by (subst loadEntries_parsed [OF _ _ sample_parse(4) sample_parse_empty])
       (simp_all add: sample_store validEntries_def isValidEntry_null)
  from s1 s2 l1 l2 show ?thesis
    by (simp add: newEntry_sample sample_parse)
qed

text \<open>
  C9. When the image is absent, or the title or the description is empty after
  trimming, \<^verbatim>\<open>saveEntry\<close> reports the missing information and returns: the store is
  as it was, and so is every field of the form; nothing is built, written, notified
  or navigated.
\<close>

theorem saveEntry_rejects_incomplete_form:
  assumes "image a = None \<or> trim (title a) = [] \<or> trim (description a) = []"
  shows "saveEntry E J a s =
           (a\<lparr>alerts := alerts a @
                [(''Missing Information'', ''Please fill in all fields and take a picture'')]\<rparr>, s)"
  using assms by (auto simp: saveEntry_def split: option.splits)

theorem saveEntry_rejects_incomplete_form_witness:
  "trim (title (sampleForm\<lparr>title := ''   ''\<rparr>)) = []
   \<and> snd (saveEntry sampleEnv sampleCodec (sampleForm\<lparr>title := ''   ''\<rparr>) (storeOf [])) = storeOf []
   \<and> title (fst (saveEntry sampleEnv sampleCodec (sampleForm\<lparr>title := ''   ''\<rparr>) (storeOf [])))
       = ''   ''
   \<and> alerts (fst (saveEntry sampleEnv sampleCodec (sampleForm\<lparr>title := ''   ''\<rparr>) (storeOf [])))
       = [(''Missing Information'', ''Please fill in all fields and take a picture'')]"
proof -
  have t: "trim (title (sampleForm\<lparr>title := ''   ''\<rparr>)) = []"
    by (simp add: trim_def isWhiteSpace_def)
  then have "image (sampleForm\<lparr>title := ''   ''\<rparr>) = None
      \<or> trim (title (sampleForm\<lparr>title := ''   ''\<rparr>)) = []
      \<or> trim (description (sampleForm\<lparr>title := ''   ''\<rparr>)) = []" by simp
  from saveEntry_rejects_incomplete_form [OF this, of sampleEnv sampleCodec "storeOf []"] t
  show ?thesis by (simp add: sampleForm_def)
qed

text \<open>
  C10, as the code has it. When the collection key holds non-empty text that does not
  deserialize and the form has passed the check, \<^verbatim>\<open>saveEntry\<close> reports a failed save
  and leaves the store as it was: the text stays, the entry is not stored, nothing is
  notified or navigated, and the form keeps its fields. This holds whether or not
  the read resolves.
\<close>

theorem saveEntry_corrupt_text:
  assumes "image a = Some img" and "img \<noteq> []" and "trim (title a) \<noteq> []"
    and "trim (description a) \<noteq> []"
    and "items s ''travelEntries'' = Some t" and "t \<noteq> []" and "parse J t = None"
  shows "saveEntry E J a s =
           (a\<lparr>alerts := alerts a @ [(''Error'', ''Failed to save entry. Please try again.'')],
              console := console a @ [''Error saving entry:''],
              isLoading := False\<rparr>, s)
       \<and> items (snd (saveEntry E J a s)) ''travelEntries'' = Some t"
  using assms(5-7)
  by (simp add: saveEntry_checked [OF assms(1-4)] getItem_def existingEntries_def)

theorem saveEntry_corrupt_text_witness:
  "snd (saveEntry sampleEnv sampleCodec sampleForm (storeOf [(''travelEntries'', ''{'')]))
     = storeOf [(''travelEntries'', ''{'')]
   \<and> alerts (fst (saveEntry sampleEnv sampleCodec sampleForm (storeOf [(''travelEntries'', ''{'')])))
       = [(''Error'', ''Failed to save entry. Please try again.'')]
   \<and> navigated (fst (saveEntry sampleEnv sampleCodec sampleForm
        (storeOf [(''travelEntries'', ''{'')]))) = []"
proof -
  let ?s = "storeOf [(''travelEntries'', ''{'')]"
  have i: "items ?s ''travelEntries'' = Some ''{''" by (simp add: storeOf_def)
  have n: "''{'' \<noteq> []" by simp
  have p: "parse sampleCodec ''{'' = None"
    by (simp add: sampleCodec_def sampleTable_def sampleTexts)
  from saveEntry_corrupt_text [OF sample_form_checked i n p, of sampleEnv] show ?thesis
    by (simp add: sampleForm_def)
qed

text \<open>
  C10 as stated fails on the empty text: it does not deserialize, yet the guard
  \<^verbatim>\<open>existingEntriesStr ? ... : []\<close> takes it for an absent collection, and the save
  goes through: the text is replaced and the screen navigates home.
\<close>

theorem empty_text_is_overwritten:
  "parse sampleCodec [] = None
   \<and> items (storeOf [(''travelEntries'', [])]) ''travelEntries'' = Some []
   \<and> items (snd (saveEntry sampleEnv sampleCodec sampleForm (storeOf [(''travelEntries'', [])])))
        ''travelEntries'' = Some beachListText
   \<and> alerts (fst (saveEntry sampleEnv sampleCodec sampleForm (storeOf [(''travelEntries'', [])])))
       = []
   \<and> navigated (fst (saveEntry sampleEnv sampleCodec sampleForm
        (storeOf [(''travelEntries'', [])]))) = [''Home'']"
proof -
  have f: "notifyOk sampleEnv" "alerts sampleForm = []" "navigated sampleForm = []"
    by (simp_all add: sampleEnv_def sampleForm_def)
  show ?thesis
    by (simp add: saveEntry_checked [OF sample_form_checked] sample_parse_empty sample_store
        getItem_def setItem_def existingEntries_def newEntry_sample sample_stringify f)
qed

section \<open>Removing an entry\<close>

lemma idDiffers_notnull: "e \<noteq> JNull \<Longrightarrow> \<exists>b. idDiffers eid e = Inr b"
  by (auto simp: idDiffers_def getProp_def split: option.splits)

lemma filterE_idDiffers:
  assumes "JNull \<notin> set xs"
  shows "filterE (idDiffers eid) xs = Inr (filter (\<lambda>x. idDiffers eid x = Inr True) xs)"
proof (rule filterE_total, rule ballI)
  fix x assume "x \<in> set xs"
  with assms have "x \<noteq> JNull" by auto
  then show "\<exists>b. idDiffers eid x = Inr b" by (rule idDiffers_notnull)
qed

text \<open>
  The entry list never holds \<^verbatim>\<open>null\<close>: it starts empty, a load sets it to records
  that passed the filter (which throws on \<^verbatim>\<open>null\<close>), and a removal only drops
  records.
\<close>

lemma loadEntries_records:
  assumes "JNull \<notin> set (entries h)"
  shows "JNull \<notin> set (entries (fst (loadEntries J h s)))"
proof -
  have "JNull \<notin> set ys" if "validEntries v = Inr ys" for v ys
  proof (cases v)
    case (JArr xs)
    with that have "ys = filter (\<lambda>x. isValidEntry x = Inr True) xs"
      by (simp add: validEntries_def filterE_Inr)
    then show ?thesis by (simp add: isValidEntry_null)
  qed (use that in \<open>simp_all add: validEntries_def\<close>)
  with assms show ?thesis
    by (auto simp: loadEntries_def split: sum.splits option.splits if_splits)
qed

lemma removeEntry_records:
  assumes "JNull \<notin> set (entries h)"
  shows "JNull \<notin> set (entries (fst (removeEntry J pressed eid h s)))"
  using assms
  by (auto simp: removeEntry_def Let_def split: choice.splits sum.splits dest!: filterE_Inr)

lemma removeEntry_confirmed:
  assumes "writable s" and "JNull \<notin> set (entries h)"
  shows "removeEntry J Delete eid h s =
           (h\<lparr>alerts := alerts h @
                [(''Delete Entry'', ''Are you sure you want to delete this entry?'')],
              entries := filter (\<lambda>x. idDiffers eid x = Inr True) (entries h)\<rparr>,
            s\<lparr>items := (items s)(''travelEntries'' \<mapsto>
                 stringify J (JArr (filter (\<lambda>x. idDiffers eid x = Inr True) (entries h))))\<rparr>)"
  using assms(1) by (simp add: removeEntry_def filterE_idDiffers [OF assms(2)] setItem_def)

text \<open>
  C4. Let the store accept writes and let the entry list hold records. Removing the
  same id a second time yields the entry list and the store of the first removal, and
  neither call reports or logs an error: each only asks for confirmation. Removing an
  id that no entry carries leaves the entry list as it was.
\<close>

theorem removeEntry_twice:
  assumes "writable s" and "JNull \<notin> set (entries h)"
  shows "entries (fst (removeEntry J Delete eid (fst (removeEntry J Delete eid h s))
                                              (snd (removeEntry J Delete eid h s))))
           = entries (fst (removeEntry J Delete eid h s))
       \<and> snd (removeEntry J Delete eid (fst (removeEntry J Delete eid h s))
                                         (snd (removeEntry J Delete eid h s)))
           = snd (removeEntry J Delete eid h s)
       \<and> alerts (fst (removeEntry J Delete eid h s)) =
           alerts h @ [(''Delete Entry'', ''Are you sure you want to delete this entry?'')]
       \<and> alerts (fst (removeEntry J Delete eid (fst (removeEntry J Delete eid h s))
                                               (snd (removeEntry J Delete eid h s)))) =
           alerts h @ [(''Delete Entry'', ''Are you sure you want to delete this entry?''),
                       (''Delete Entry'', ''Are you sure you want to delete this entry?'')]
       \<and> console (fst (removeEntry J Delete eid h s)) = console h
       \<and> console (fst (removeEntry J Delete eid (fst (removeEntry J Delete eid h s))
                                                (snd (removeEntry J Delete eid h s))))
           = console h
       \<and> ((\<forall>e\<in>set (entries h). getProp e ''id'' \<noteq> Inr (Val (JStr eid))) \<longrightarrow>
            entries (fst (removeEntry J Delete eid h s)) = entries h)"
proof -
  let ?keep = "\<lambda>x. idDiffers eid x = Inr True"
  let ?h1 = "fst (removeEntry J Delete eid h s)" and ?s1 = "snd (removeEntry J Delete eid h s)"
  note first = removeEntry_confirmed [OF assms, of J eid]
  have w1: "writable ?s1" using assms(1) by (simp add: first)
  have n1: "JNull \<notin> set (entries ?h1)" using assms(2) by (simp add: first)
  note second = removeEntry_confirmed [OF w1 n1, of J eid]
  have same: "filter ?keep (entries ?h1) = entries ?h1" by (simp add: first)
  have absent: "filter ?keep (entries h) = entries h"
    if "\<forall>e\<in>set (entries h). getProp e ''id'' \<noteq> Inr (Val (JStr eid))"
  proof (rule filter_True, rule ballI)
    fix x assume x: "x \<in> set (entries h)"
    with assms(2) have "x \<noteq> JNull" by auto
    with that x show "?keep x"
      by (auto simp: idDiffers_def getProp_def split: option.splits)
  qed
  have e2: "entries (fst (removeEntry J Delete eid ?h1 ?s1)) = entries ?h1"
    by (simp add: second same)
  have s2: "snd (removeEntry J Delete eid ?h1 ?s1) = ?s1"
    by (simp add: second same) (simp add: first)
  have a1: "alerts ?h1 =
      alerts h @ [(''Delete Entry'', ''Are you sure you want to delete this entry?'')]"
    by (simp add: first)
  have a2: "alerts (fst (removeEntry J Delete eid ?h1 ?s1)) =
      alerts h @ [(''Delete Entry'', ''Are you sure you want to delete this entry?''),
                  (''Delete Entry'', ''Are you sure you want to delete this entry?'')]"
    by (simp add: second) (simp add: first)
  have c2: "console (fst (removeEntry J Delete eid ?h1 ?s1)) = console h"
    by (simp add: second) (simp add: first)
  have e1: "entries ?h1 = entries h"
    if "\<forall>e\<in>set (entries h). getProp e ''id'' \<noteq> Inr (Val (JStr eid))"
    by (simp add: first absent [OF that])
  have c1: "console ?h1 = console h" by (simp add: first)
  from e2 s2 a1 a2 c1 c2 e1 show ?thesis by blast
qed

theorem removeEntry_twice_witness:
  "entries (fst (removeEntry sampleCodec Delete ''4''
       (fst (removeEntry sampleCodec Delete ''4'' sampleHome (storeOf [])))
       (snd (removeEntry sampleCodec Delete ''4'' sampleHome (storeOf [])))))
     = [beach]
   \<and> entries (fst (removeEntry sampleCodec Delete ''4'' sampleHome (storeOf []))) = [beach]
   \<and> snd (removeEntry sampleCodec Delete ''4''
       (fst (removeEntry sampleCodec Delete ''4'' sampleHome (storeOf [])))
       (snd (removeEntry sampleCodec Delete ''4'' sampleHome (storeOf []))))
     = snd (removeEntry sampleCodec Delete ''4'' sampleHome (storeOf []))"
proof -
  have w: "writable (storeOf [])" by (simp add: storeOf_def)
  have n: "JNull \<notin> set (entries sampleHome)"
    by (simp add: sampleHome_def beach_def harbour_def)
  have d: "idDiffers ''4'' beach = Inr True" "idDiffers ''4'' harbour = Inr False"
    by (simp_all add: idDiffers_def getProp_def ownProp_def beach_def harbour_def)
  have first: "entries (fst (removeEntry sampleCodec Delete ''4'' sampleHome (storeOf []))) = [beach]"
  proof -
    have "entries sampleHome = [beach, harbour]" by (simp add: sampleHome_def)
    then show ?thesis by (simp add: removeEntry_confirmed [OF w n] d)
  qed
  from removeEntry_twice [OF w n, of sampleCodec "''4''"] first show ?thesis by simp
qed

section \<open>Toggling an overlay\<close>

lemma storageKey_inject: "storageKey k1 = storageKey k2 \<longleftrightarrow> k1 = k2"
  by (cases k1; cases k2) simp_all

lemma toggleAction_store:
  "snd (toggleAction J eid k h s) = s \<or>
   (\<exists>t. snd (toggleAction J eid k h s) = s\<lparr>items := (items s)(storageKey k \<mapsto> t)\<rparr>)"
  by (auto simp: toggleAction_def setItem_def Let_def split: sum.splits)

text \<open>
  What holds of a toggle on an object: the flag of the id is flipped, provided the id
  is an own key of the object or is not a name that objects inherit.
\<close>

lemma toggled_object_flips:
  assumes "map_of kvs eid \<noteq> None \<or> eid \<notin> set objectPrototypeKeys"
  shows "\<exists>kvs'. toggled (JObj kvs) eid = Inr (JObj kvs')
           \<and> map_of kvs' eid = Some (JBool (\<not> flagAt (JObj kvs) eid))
           \<and> (\<forall>k. k \<noteq> eid \<longrightarrow> map_of kvs' k = map_of kvs k)"
proof (cases "map_of kvs eid")
  case None
  with assms have "eid \<notin> set objectPrototypeKeys" by simp
  with None show ?thesis
    by (simp add: toggled_def getProp_def ownProp_def setProp_def flagAt_def update_conv')
next
  case (Some v)
  then show ?thesis
    by (simp add: toggled_def getProp_def ownProp_def setProp_def flagAt_def update_conv')
qed

lemma toggled_object_twice:
  assumes "map_of kvs eid \<noteq> None \<or> eid \<notin> set objectPrototypeKeys"
  shows "\<exists>p1 p2. toggled (JObj kvs) eid = Inr p1 \<and> toggled p1 eid = Inr p2
           \<and> flagAt p1 eid = (\<not> flagAt (JObj kvs) eid)
           \<and> flagAt p2 eid = flagAt (JObj kvs) eid"
proof -
  from toggled_object_flips [OF assms] obtain kvs1 where
    1: "toggled (JObj kvs) eid = Inr (JObj kvs1)"
       "map_of kvs1 eid = Some (JBool (\<not> flagAt (JObj kvs) eid))" by blast
  from 1(2) have "map_of kvs1 eid \<noteq> None \<or> eid \<notin> set objectPrototypeKeys" by simp
  from toggled_object_flips [OF this] obtain kvs2 where
    2: "toggled (JObj kvs1) eid = Inr (JObj kvs2)"
       "map_of kvs2 eid = Some (JBool (\<not> flagAt (JObj kvs1) eid))" by blast
  have f1: "flagAt (JObj kvs1) eid = (\<not> flagAt (JObj kvs) eid)"
    using 1(2) by (simp add: flagAt_def ownProp_def)
  have f2: "flagAt (JObj kvs2) eid = flagAt (JObj kvs) eid"
    using 2(2) f1 by (simp add: flagAt_def ownProp_def)
  from 1(1) 2(1) f1 f2 show ?thesis by blast
qed

lemma sample_overlay_stringify:
  "stringify sampleCodec (JObj [(''toString'', JBool False)]) = ''{\"toString\":false}''"
  "stringify sampleCodec (JObj [(''toString'', JBool True)]) = ''{\"toString\":true}''"
  "stringify sampleCodec (JObj [(''1'', JBool True)]) = ''{\"1\":true}''"
  "stringify sampleCodec (JObj [(''1'', JBool False)]) = ''{\"1\":false}''"
  by (simp_all add: sampleCodec_def sampleStringify_def sampleTable_def beach_def untitled_def
      imageless_def harbour_def)

lemma toggled_samples:
  "toggled (JObj []) ''toString'' = Inr (JObj [(''toString'', JBool False)])"
  "toggled (JObj [(''toString'', JBool False)]) ''toString'' = Inr (JObj [(''toString'', JBool True)])"
  "toggled (JObj []) ''1'' = Inr (JObj [(''1'', JBool True)])"
  "toggled (JObj [(''1'', JBool True)]) ''1'' = Inr (JObj [(''1'', JBool False)])"
  by (simp_all add: toggled_def getProp_def ownProp_def setProp_def objectPrototypeKeys_def)











text \<open>
  C6. A toggle of one kind leaves the text stored under the key of every other kind
  as it was.
\<close>

theorem toggleAction_other_kind_untouched:
  assumes "k1 \<noteq> k2"
  shows "items (snd (toggleAction J eid k1 h s)) (storageKey k2) = items s (storageKey k2)"
proof -
  from assms have "storageKey k1 \<noteq> storageKey k2" by (simp add: storageKey_inject)
  with toggleAction_store [of J eid k1 h s] show ?thesis by auto
qed

theorem toggleAction_other_kind_untouched_witness:
  "items (snd (toggleAction sampleCodec ''1'' Like initialHome
      (storeOf [(''savedPosts'', ''{\"1\":true}'')]))) ''savedPosts'' = Some ''{\"1\":true}''
   \<and> items (snd (toggleAction sampleCodec ''1'' Like initialHome
      (storeOf [(''savedPosts'', ''{\"1\":true}'')]))) ''likedPosts'' = Some ''{\"1\":true}''"
proof -
  have d: "Like \<noteq> Save" by simp
  have l: "likedPosts initialHome = JObj []" by (simp add: initialHome_def)
  have own: "items (snd (toggleAction sampleCodec ''1'' Like initialHome
      (storeOf [(''savedPosts'', ''{\"1\":true}'')]))) ''likedPosts'' = Some ''{\"1\":true}''"
    by (simp add: toggleAction_def l toggled_samples setItem_def sample_store
        sample_overlay_stringify)
  from toggleAction_other_kind_untouched [OF d, of sampleCodec "''1''" initialHome
      "storeOf [(''savedPosts'', ''{\"1\":true}'')]"] own
  show ?thesis by (simp add: sample_store)
qed

section \<open>Loading the overlays\<close>

lemma loadActionStates_quiet:
  "alerts (fst (loadActionStates J h s)) = alerts h \<and> snd (loadActionStates J h s) = s"
  by (simp add: loadActionStates_def Let_def split: sum.splits option.splits)

text \<open>
  A kind whose key is absent, or holds the empty text or text that does not
  deserialize, keeps the mapping it had, whatever the other keys hold: the empty
  mapping when the screen has just mounted.
\<close>

lemma loadActionStates_unusable_key:
  assumes "\<forall>v. parseIfSet J (items s (storageKey k)) \<noteq> Inr (Some v)"
  shows "postsOf k (fst (loadActionStates J h s)) = postsOf k h"
proof (cases "readable s")
  case False
  then show ?thesis by (cases k) (simp_all add: loadActionStates_def getItem_def)
next
  case True
  show ?thesis
  proof (cases k)
    case Like
    with assms True show ?thesis
      by (simp add: loadActionStates_def getItem_def Let_def split: sum.splits option.splits)
  next
    case Comment
    with assms True show ?thesis
      by (simp add: loadActionStates_def getItem_def Let_def split: sum.splits option.splits)
  next
    case Share
    with assms True show ?thesis
      by (simp add: loadActionStates_def getItem_def Let_def split: sum.splits option.splits)
  next
    case Save
    with assms True show ?thesis
      by (simp add: loadActionStates_def getItem_def Let_def split: sum.splits option.splits)
  qed
qed

text \<open>
  A kind is loaded from its own text alone as long as the texts parsed before it
  deserialize (or are absent or empty).
\<close>

lemma loadActionStates_kind:
  assumes "readable s"
    and "\<forall>k'\<in>set (parsedBefore k). parseIfSet J (items s (storageKey k')) \<noteq> Inl SyntaxError"
  shows "postsOf k (fst (loadActionStates J h s)) =
           (case parseIfSet J (items s (storageKey k)) of
              Inr (Some v) \<Rightarrow> v
            | _ \<Rightarrow> postsOf k h)"
proof -
  have only: "parseIfSet J t = Inl e \<Longrightarrow> e = SyntaxError" for t e
    by (auto simp: parseIfSet_def split: option.splits if_splits)
  show ?thesis
  proof (cases k)
    case Like
    with assms show ?thesis
      by (simp add: loadActionStates_def getItem_def Let_def split: sum.splits option.splits)
  next
    case Comment
    with assms show ?thesis
      by (auto simp: loadActionStates_def getItem_def Let_def split: sum.splits option.splits
          dest: only)
  next
    case Share
    with assms show ?thesis
      by (auto simp: loadActionStates_def getItem_def Let_def split: sum.splits option.splits
          dest: only)
  next
    case Save
    with assms show ?thesis
      by (auto simp: loadActionStates_def getItem_def Let_def split: sum.splits option.splits
          dest: only)
  qed
qed

text \<open>
  C8 on two stores that hold the same text under \<^verbatim>\<open>commentedPosts\<close>. Where the key
  \<^verbatim>\<open>likedPosts\<close> is absent, the commented overlay is loaded. Where \<^verbatim>\<open>likedPosts\<close> holds
  text that does not deserialize, the exception of its \<^verbatim>\<open>JSON.parse\<close> leaves the three
  setters after it uncalled, and the commented overlay stays empty: what is loaded
  for one kind depends on the text of another. Nothing is shown to the user in either
  case.
\<close>

theorem loadActionStates_corrupt_liked_blocks_commented:
  "items (storeOf [(''likedPosts'', ''{''), (''commentedPosts'', ''{\"1\":true}'')]) ''commentedPosts''
     = items (storeOf [(''commentedPosts'', ''{\"1\":true}'')]) ''commentedPosts''
   \<and> commentedPosts (fst (loadActionStates sampleCodec initialHome
        (storeOf [(''commentedPosts'', ''{\"1\":true}'')]))) = JObj [(''1'', JBool True)]
   \<and> commentedPosts (fst (loadActionStates sampleCodec initialHome
        (storeOf [(''likedPosts'', ''{''), (''commentedPosts'', ''{\"1\":true}'')]))) = JObj []
   \<and> alerts (fst (loadActionStates sampleCodec initialHome
        (storeOf [(''likedPosts'', ''{''), (''commentedPosts'', ''{\"1\":true}'')]))) = []
   \<and> console (fst (loadActionStates sampleCodec initialHome
        (storeOf [(''likedPosts'', ''{''), (''commentedPosts'', ''{\"1\":true}'')])))
       = [''Error loading action states:'']"
proof -
  have p: "parseIfSet sampleCodec None = Inr None"
    "parseIfSet sampleCodec (Some ''{'') = Inl SyntaxError"
    "parseIfSet sampleCodec (Some ''{\"1\":true}'') = Inr (Some (JObj [(''1'', JBool True)]))"
    by (simp_all add: parseIfSet_def sampleCodec_def sampleTable_def sampleTexts)
  show ?thesis
    by (simp add: loadActionStates_def getItem_def sample_store p initialHome_def)
qed

end
